theory Spec2Isabelle
  imports Main
begin

text \<open>
  The event ingestion of the Lifelogs API: the timestamp normalizer \<open>parseTimestamp\<close>,
  the line parser \<open>parseCSVLine\<close>, the import handlers \<open>POST /json\<close>, \<open>POST /csv\<close> and
  \<open>POST /csv/preview\<close>, and the listing handler \<open>GET /\<close> of the events routes, as they
  stand in \<open>src/lifelogs/api/src/middleware/auth.ts\<close>.  Handlers are functions from the
  state of the database to a response and the state after it; a thrown error is a value.
  What the platform provides (\<open>Date\<close>, \<open>JSON.parse\<close>, \<open>ulid\<close>, the clock, the failure of
  an insert) is a parameter of the model.
\<close>

section \<open>Strings as the program sees them\<close>

text \<open>
  Source strings are modelled as \<open>string\<close> (a list of characters).  The whitespace that
  \<open>String.prototype.trim\<close> strips is modelled on its ASCII part: tab, line feed, vertical
  tab, form feed, carriage return and space.
\<close>

definition is_ws :: "char \<Rightarrow> bool" where
  "is_ws c = (c \<in> set [CHR 0x09, CHR 0x0A, CHR 0x0B, CHR 0x0C, CHR 0x0D, CHR '' ''])"

definition trim :: "string \<Rightarrow> string" where
  "trim s = rev (dropWhile is_ws (rev (dropWhile is_ws s)))"

text \<open>\<open>s.split(d)\<close> for a one-character separator: always at least one piece.\<close>

fun split_on :: "char \<Rightarrow> string \<Rightarrow> string list" where
  "split_on d [] = [[]]"
| "split_on d (c # cs) =
     (if c = d then [] # split_on d cs
      else (case split_on d cs of [] \<Rightarrow> [[c]] | h # t \<Rightarrow> (c # h) # t))"

section \<open>The delimited-text parser\<close>

text \<open>
  \<open>parseCSVLine\<close> walks the line once, carrying the fields pushed so far (\<open>result\<close>), the
  field being built (\<open>current\<close>) and the flag \<open>inQuotes\<close>.  The three-equation shape follows
  the source's \<open>if / else if / else\<close>; the look-ahead \<open>line[i + 1] === '"'\<close> is the test on
  the head of the remaining text, and \<open>i++\<close> skips it.
\<close>

fun parse_loop :: "string list \<Rightarrow> string \<Rightarrow> bool \<Rightarrow> string \<Rightarrow> string list" where
  "parse_loop result current inQuotes [] = result @ [trim current]"
| "parse_loop result current inQuotes (c # rest) =
     (if c = CHR 0x22 then
        (case rest of
           c' # rest' \<Rightarrow>
             if inQuotes \<and> c' = CHR 0x22
             then parse_loop result (current @ [CHR 0x22]) inQuotes rest'
             else parse_loop result current (\<not> inQuotes) rest
         | [] \<Rightarrow> parse_loop result current (\<not> inQuotes) rest)
      else if c = CHR '','' \<and> \<not> inQuotes then
        parse_loop (result @ [trim current]) [] inQuotes rest
      else parse_loop result (current @ [c]) inQuotes rest)"

definition parseCSVLine :: "string \<Rightarrow> string list" where
  "parseCSVLine line = parse_loop [] [] False line"

section \<open>Numbers and values of the host language\<close>

text \<open>
  A number interpolated into a template literal (\<open>`Line ${i + 1}`\<close>) prints in decimal.
\<close>

definition digit_char :: "nat \<Rightarrow> char" where
  "digit_char d = ''0123456789'' ! (d mod 10)"

fun show_nat :: "nat \<Rightarrow> string" where
  "show_nat n = (if n < 10 then [digit_char n] else show_nat (n div 10) @ [digit_char (n mod 10)])"

declare show_nat.simps [simp del]

definition show_int :: "int \<Rightarrow> string" where
  "show_int i = (if i < 0 then CHR ''-'' # show_nat (nat (- i)) else show_nat (nat i))"

text \<open>\<open>xs.join(sep)\<close>.\<close>

fun join :: "string \<Rightarrow> string list \<Rightarrow> string" where
  "join sep [] = []"
| "join sep [x] = x"
| "join sep (x # y # ys) = x @ sep @ join sep (y # ys)"

text \<open>\<open>xs.indexOf(x)\<close>: the first position, or \<open>-1\<close>; \<open>xs.includes(x)\<close> is \<open>x \<in> set xs\<close>.\<close>

fun indexOf :: "'a list \<Rightarrow> 'a \<Rightarrow> int" where
  "indexOf [] x = - 1"
| "indexOf (y # ys) x =
     (if y = x then 0 else (let r = indexOf ys x in if r = - 1 then - 1 else r + 1))"

text \<open>\<open>xs[i]\<close>: \<open>undefined\<close> (here \<open>None\<close>) outside the array, also at index \<open>-1\<close>.\<close>

definition js_nth :: "'a list \<Rightarrow> int \<Rightarrow> 'a option" where
  "js_nth xs i = (if 0 \<le> i \<and> nat i < length xs then Some (xs ! nat i) else None)"

text \<open>
  Decoded structured values.  Numbers are modelled as integers; fractional numbers are
  outside the model.
\<close>

datatype json =
    JNull
  | JBool bool
  | JNum int
  | JStr string
  | JArr "json list"
  | JObj "(string \<times> json) list"

text \<open>The truthiness test of \<open>data ? JSON.stringify(data) : null\<close>.\<close>

fun truthy :: "json \<Rightarrow> bool" where
  "truthy JNull = False"
| "truthy (JBool b) = b"
| "truthy (JNum n) = (n \<noteq> 0)"
| "truthy (JStr s) = (s \<noteq> [])"
| "truthy (JArr xs) = True"
| "truthy (JObj kvs) = True"

text \<open>\<open>JSON.stringify\<close>: strings are quoted with the quote, the backslash and the control
  characters escaped; arrays and objects are written without spaces.\<close>

definition hex_digit :: "nat \<Rightarrow> char" where
  "hex_digit d = ''0123456789abcdef'' ! (d mod 16)"

definition escape_char :: "char \<Rightarrow> string" where
  "escape_char c =
     (if c = CHR 0x22 then [CHR 0x5C, CHR 0x22]
      else if c = CHR 0x5C then [CHR 0x5C, CHR 0x5C]
      else if c = CHR 0x08 then [CHR 0x5C, CHR ''b'']
      else if c = CHR 0x0C then [CHR 0x5C, CHR ''f'']
      else if c = CHR 0x0A then [CHR 0x5C, CHR ''n'']
      else if c = CHR 0x0D then [CHR 0x5C, CHR ''r'']
      else if c = CHR 0x09 then [CHR 0x5C, CHR ''t'']
      else if (of_char c :: nat) < 32
        then [CHR 0x5C, CHR ''u'', CHR ''0'', CHR ''0'',
              hex_digit (of_char c div 16), hex_digit (of_char c mod 16)]
      else [c])"

definition quote :: "string \<Rightarrow> string" where
  "quote s = CHR 0x22 # concat (map escape_char s) @ [CHR 0x22]"

fun json_stringify :: "json \<Rightarrow> string" where
  "json_stringify JNull = ''null''"
| "json_stringify (JBool b) = (if b then ''true'' else ''false'')"
| "json_stringify (JNum n) = show_int n"
| "json_stringify (JStr s) = quote s"
| "json_stringify (JArr xs) = ''['' @ join '','' (map json_stringify xs) @ '']''"
| "json_stringify (JObj kvs) =
     ''{'' @ join '','' (map (\<lambda>kv. quote (fst kv) @ '':'' @ json_stringify (snd kv)) kvs) @ ''}''"

section \<open>The environment of a request\<close>

text \<open>
  What the handlers take from the platform and the persistence collaborator:
  \<^item> \<open>date_getTime s\<close> is \<open>new Date(s).getTime()\<close>, \<open>None\<close> standing for \<open>NaN\<close>
    (an invalid date);
  \<^item> \<open>json_parse s\<close> is \<open>JSON.parse(s)\<close>, \<open>Inl m\<close> when it throws a syntax error with
    message \<open>m\<close>;
  \<^item> \<open>ulid n\<close> is the identifier returned by the \<open>n\<close>-th call of \<open>ulid()\<close>;
  \<^item> \<open>now\<close> is \<open>Date.now()\<close>;
  \<^item> \<open>db_error rows row\<close> is \<open>Some m\<close> when running the \<open>INSERT\<close> of \<open>row\<close> into a table
    holding \<open>rows\<close> throws an error with message \<open>m\<close>.
\<close>

record event =
  ev_id :: string
  user_id :: string
  timestamp :: int
  event_type :: "string option"
  data :: "string option"
  tags :: "string option"
  source :: string
  created_at :: int

record env =
  date_getTime :: "string \<Rightarrow> int option"
  json_parse :: "string \<Rightarrow> string + json"
  ulid :: "nat \<Rightarrow> string"
  now :: int
  db_error :: "event list \<Rightarrow> event \<Rightarrow> string option"

text \<open>The state: the \<open>events\<close> table and the number of identifiers drawn so far.\<close>

record db =
  events :: "event list"
  ulid_calls :: nat

definition run_insert :: "env \<Rightarrow> db \<Rightarrow> event \<Rightarrow> string + db" where
  "run_insert e st row =
     (case db_error e (events st) row of
        Some msg \<Rightarrow> Inl msg
      | None \<Rightarrow> Inr (st\<lparr>events := events st @ [row]\<rparr>))"

section \<open>The timestamp normalizer\<close>

text \<open>
  The argument is a number, a string, or \<open>undefined\<close> (a row shorter than its header, in
  text mode).  Numbers are modelled as integers, as epoch values are.  \<open>new Date(undefined)\<close>
  is an invalid date whatever the platform.  A thrown \<open>Error\<close> is \<open>Inl\<close> of its message.
\<close>

datatype ts_input = TNum int | TStr string | TUndefined

fun parseTimestamp :: "env \<Rightarrow> ts_input \<Rightarrow> string + int" where
  "parseTimestamp e (TNum v) = (if v < 10000000000 then Inr (v * 1000) else Inr v)"
| "parseTimestamp e (TStr s) =
     (case date_getTime e s of
        Some t \<Rightarrow> Inr t
      | None \<Rightarrow> Inl (''Invalid timestamp: '' @ s))"
| "parseTimestamp e TUndefined = Inl ''Invalid timestamp: undefined''"

section \<open>The import pipeline\<close>

text \<open>
  A handler answers with a report, or with an error body and its HTTP status.
\<close>

datatype import_response =
    ImportReport (imported: nat) (total: nat) (errors: "string list")
  | ImportError nat string

subsection \<open>Structured-batch mode\<close>

text \<open>
  The body has passed \<open>jsonImportSchema\<close> when the handler runs: each record has a
  timestamp that is a string or a number, an event type, and optionally an object \<open>data\<close>
  and an array of strings \<open>tags\<close>.
\<close>

record import_event =
  ie_timestamp :: ts_input
  ie_event_type :: string
  ie_data :: "(string \<times> json) list option"
  ie_tags :: "string list option"

text \<open>
  The body of the \<open>try\<close> for one record: the thrown message, if any, and the state
  after it.  The identifier is drawn before the timestamp is parsed.
\<close>

definition json_try :: "env \<Rightarrow> string \<Rightarrow> db \<Rightarrow> import_event \<Rightarrow> string option \<times> db" where
  "json_try e uid st ev =
     (let eventId = ulid e (ulid_calls st);
          st1 = st\<lparr>ulid_calls := Suc (ulid_calls st)\<rparr>
      in case parseTimestamp e (ie_timestamp ev) of
           Inl msg \<Rightarrow> (Some msg, st1)
         | Inr ts \<Rightarrow>
             (case run_insert e st1
                     \<lparr>ev_id = eventId, user_id = uid, timestamp = ts,
                      event_type = Some (ie_event_type ev),
                      data = map_option (\<lambda>d. json_stringify (JObj d)) (ie_data ev),
                      tags = map_option (\<lambda>t. json_stringify (JArr (map JStr t))) (ie_tags ev),
                      source = ''json_import'', created_at = now e\<rparr> of
                Inl msg \<Rightarrow> (Some msg, st1)
              | Inr st2 \<Rightarrow> (None, st2)))"

text \<open>The loop \<open>for (let i = 0; i < events.length; i++)\<close>, on the records from \<open>i\<close> on.\<close>

fun json_loop ::
  "env \<Rightarrow> string \<Rightarrow> nat \<Rightarrow> import_event list \<Rightarrow> db \<times> nat \<times> string list
     \<Rightarrow> db \<times> nat \<times> string list" where
  "json_loop e uid i [] acc = acc"
| "json_loop e uid i (ev # evs) (st, success, errs) =
     (case json_try e uid st ev of
        (Some msg, st') \<Rightarrow>
          json_loop e uid (Suc i) evs
            (st', success, errs @ [''Event '' @ show_nat i @ '': '' @ msg])
      | (None, st') \<Rightarrow> json_loop e uid (Suc i) evs (st', Suc success, errs))"

definition json_import :: "env \<Rightarrow> string \<Rightarrow> db \<Rightarrow> import_event list \<Rightarrow> import_response \<times> db" where
  "json_import e uid st evs =
     (case json_loop e uid 0 evs (st, 0, []) of
        (st', success, errs) \<Rightarrow> (ImportReport success (length evs) errs, st'))"

subsection \<open>Text mode\<close>

text \<open>
  \<open>idx !== -1 && values[idx]\<close>: the cell of a column that exists, when the cell is there
  and not empty.
\<close>

definition cell :: "string list \<Rightarrow> int \<Rightarrow> string option" where
  "cell vals idx =
     (if idx \<noteq> - 1 then
        (case js_nth vals idx of
           Some s \<Rightarrow> if s \<noteq> [] then Some s else None
         | None \<Rightarrow> None)
      else None)"

definition ts_cell :: "string option \<Rightarrow> ts_input" where
  "ts_cell v = (case v of Some s \<Rightarrow> TStr s | None \<Rightarrow> TUndefined)"

text \<open>
  The inner \<open>try\<close> around \<open>JSON.parse\<close> replaces the parser's message by the handler's
  own; a column that is absent or a cell that is empty leaves \<open>null\<close>.
\<close>

definition parse_column :: "env \<Rightarrow> string list \<Rightarrow> int \<Rightarrow> string \<Rightarrow> string + json" where
  "parse_column e vals idx failure =
     (case cell vals idx of
        None \<Rightarrow> Inr JNull
      | Some s \<Rightarrow> (case json_parse e s of Inl m \<Rightarrow> Inl failure | Inr v \<Rightarrow> Inr v))"

definition stored :: "json \<Rightarrow> string option" where
  "stored v = (if truthy v then Some (json_stringify v) else None)"

record columns =
  timestampIdx :: int
  eventTypeIdx :: int
  dataIdx :: int
  tagsIdx :: int

definition find_columns :: "string list \<Rightarrow> columns" where
  "find_columns header =
     \<lparr>timestampIdx = indexOf header ''timestamp'',
      eventTypeIdx = indexOf header ''event_type'',
      dataIdx = indexOf header ''data'',
      tagsIdx = indexOf header ''tags''\<rparr>"

definition csv_try :: "env \<Rightarrow> string \<Rightarrow> columns \<Rightarrow> db \<Rightarrow> string \<Rightarrow> string option \<times> db" where
  "csv_try e uid cols st line =
     (let vals = parseCSVLine line;
          eventId = ulid e (ulid_calls st);
          st1 = st\<lparr>ulid_calls := Suc (ulid_calls st)\<rparr>
      in case parseTimestamp e (ts_cell (js_nth vals (timestampIdx cols))) of
           Inl msg \<Rightarrow> (Some msg, st1)
         | Inr ts \<Rightarrow>
             (case parse_column e vals (dataIdx cols) ''Invalid JSON in data column'' of
                Inl msg \<Rightarrow> (Some msg, st1)
              | Inr d \<Rightarrow>
                  (case parse_column e vals (tagsIdx cols) ''Invalid JSON in tags column'' of
                     Inl msg \<Rightarrow> (Some msg, st1)
                   | Inr t \<Rightarrow>
                       (case run_insert e st1
                               \<lparr>ev_id = eventId, user_id = uid, timestamp = ts,
                                event_type = js_nth vals (eventTypeIdx cols),
                                data = stored d, tags = stored t,
                                source = ''csv_import'', created_at = now e\<rparr> of
                          Inl msg \<Rightarrow> (Some msg, st1)
                        | Inr st2 \<Rightarrow> (None, st2)))))"

text \<open>
  The loop \<open>for (let i = 1; i < lines.length; i++)\<close>, on the lines from index \<open>i\<close> on.
  A line that is empty once trimmed is passed over.
\<close>

fun csv_loop ::
  "env \<Rightarrow> string \<Rightarrow> columns \<Rightarrow> nat \<Rightarrow> string list \<Rightarrow> db \<times> nat \<times> string list
     \<Rightarrow> db \<times> nat \<times> string list" where
  "csv_loop e uid cols i [] acc = acc"
| "csv_loop e uid cols i (raw # rest) (st, success, errs) =
     (let line = trim raw in
      if line = [] then csv_loop e uid cols (Suc i) rest (st, success, errs)
      else
        (case csv_try e uid cols st line of
           (Some msg, st') \<Rightarrow>
             csv_loop e uid cols (Suc i) rest
               (st', success, errs @ [''Line '' @ show_nat (i + 1) @ '': '' @ msg])
         | (None, st') \<Rightarrow> csv_loop e uid cols (Suc i) rest (st', Suc success, errs)))"

definition body_lines :: "string \<Rightarrow> string list" where
  "body_lines body = split_on CHR 0x0A (trim body)"

definition csv_import :: "env \<Rightarrow> string \<Rightarrow> db \<Rightarrow> string \<Rightarrow> import_response \<times> db" where
  "csv_import e uid st body =
     (let lines = body_lines body in
      if length lines < 2 then
        (ImportError 400 ''CSV must have at least a header and one data row'', st)
      else
        (let header = parseCSVLine (hd lines) in
         if ''timestamp'' \<notin> set header then
           (ImportError 400 ''Missing required column: timestamp'', st)
         else if ''event_type'' \<notin> set header then
           (ImportError 400 ''Missing required column: event_type'', st)
         else
           (case csv_loop e uid (find_columns header) 1 (tl lines) (st, 0, []) of
              (st', success, errs) \<Rightarrow>
                (ImportReport success (length lines - 1) errs, st'))))"

subsection \<open>Preview\<close>

record preview_row =
  pv_line :: nat
  pv_timestamp :: "string option"
  pv_event_type :: "string option"
  pv_data :: json
  pv_tags :: json
  pv_error :: "string option"

datatype preview_response =
    PreviewOk (columns: "string list") (total_rows: nat) (preview: "preview_row list")
  | PreviewInvalid string
  | PreviewError nat string

text \<open>
  \<open>JSON.parse\<close> is not wrapped here: its own message is the row's error.  The handler
  reads nothing else of the row than the two optional cells.
\<close>

definition preview_column :: "env \<Rightarrow> string list \<Rightarrow> int \<Rightarrow> string + json" where
  "preview_column e vals idx =
     (case cell vals idx of None \<Rightarrow> Inr JNull | Some s \<Rightarrow> json_parse e s)"

definition failed_row :: "nat \<Rightarrow> string \<Rightarrow> preview_row" where
  "failed_row i msg =
     \<lparr>pv_line = i + 1, pv_timestamp = Some [], pv_event_type = Some [],
      pv_data = JNull, pv_tags = JNull, pv_error = Some msg\<rparr>"

definition preview_try :: "env \<Rightarrow> columns \<Rightarrow> nat \<Rightarrow> string \<Rightarrow> preview_row" where
  "preview_try e cols i line =
     (let vals = parseCSVLine line in
      case preview_column e vals (dataIdx cols) of
        Inl msg \<Rightarrow> failed_row i msg
      | Inr d \<Rightarrow>
          (case preview_column e vals (tagsIdx cols) of
             Inl msg \<Rightarrow> failed_row i msg
           | Inr t \<Rightarrow>
               \<lparr>pv_line = i + 1,
                pv_timestamp = js_nth vals (timestampIdx cols),
                pv_event_type = js_nth vals (eventTypeIdx cols),
                pv_data = d, pv_tags = t, pv_error = None\<rparr>))"

text \<open>The loop \<open>for (let i = 1; i < maxPreview; i++)\<close>, on the lines from index \<open>i\<close> on.\<close>

fun preview_loop :: "env \<Rightarrow> columns \<Rightarrow> nat \<Rightarrow> string list \<Rightarrow> preview_row list" where
  "preview_loop e cols i [] = []"
| "preview_loop e cols i (raw # rest) =
     (let line = trim raw in
      if line = [] then preview_loop e cols (Suc i) rest
      else preview_try e cols i line # preview_loop e cols (Suc i) rest)"

text \<open>The preview handler never touches the database: the state is returned as given.\<close>

definition csv_preview :: "env \<Rightarrow> db \<Rightarrow> string \<Rightarrow> preview_response \<times> db" where
  "csv_preview e st body =
     (let lines = body_lines body in
      if length lines < 2 then
        (PreviewError 400 ''CSV must have at least a header and one data row'', st)
      else
        (let header = parseCSVLine (hd lines);
             missingColumns = filter (\<lambda>col. col \<notin> set header) [''timestamp'', ''event_type'']
         in
         if length missingColumns > 0 then
           (PreviewInvalid (''Missing required columns: '' @ join '', '' missingColumns), st)
         else
           (let maxPreview = min (length lines) 6 in
            (PreviewOk header (length lines - 1)
               (preview_loop e (find_columns header) 1 (take (maxPreview - 1) (tl lines))),
             st))))"

subsection \<open>What each record of a batch did\<close>

text \<open>
  The thrown message (or \<open>None\<close>) of each record's \<open>try\<close>, in the order of the batch,
  with the state threaded as the loops thread it.  A blank line of text throws nothing.
\<close>

fun json_outcomes :: "env \<Rightarrow> string \<Rightarrow> db \<Rightarrow> import_event list \<Rightarrow> string option list" where
  "json_outcomes e uid st [] = []"
| "json_outcomes e uid st (ev # evs) =
     (case json_try e uid st ev of (r, st') \<Rightarrow> r # json_outcomes e uid st' evs)"

fun csv_outcomes :: "env \<Rightarrow> string \<Rightarrow> columns \<Rightarrow> db \<Rightarrow> string list \<Rightarrow> string option list" where
  "csv_outcomes e uid cols st [] = []"
| "csv_outcomes e uid cols st (raw # rest) =
     (if trim raw = [] then None # csv_outcomes e uid cols st rest
      else (case csv_try e uid cols st (trim raw) of
              (r, st') \<Rightarrow> r # csv_outcomes e uid cols st' rest))"

text \<open>
  The messages of a list of outcomes, each behind the reference \<open>ref i\<close> of its position,
  positions counted from \<open>i\<close>.
\<close>

fun tagged :: "(nat \<Rightarrow> string) \<Rightarrow> nat \<Rightarrow> string option list \<Rightarrow> string list" where
  "tagged ref i [] = []"
| "tagged ref i (None # os) = tagged ref (Suc i) os"
| "tagged ref i (Some m # os) = (ref i @ '': '' @ m) # tagged ref (Suc i) os"

definition blank_lines :: "string list \<Rightarrow> nat" where
  "blank_lines ls = length (filter (\<lambda>l. trim l = []) ls)"



subsection \<open>Reading a response\<close>




definition header_columns :: "string \<Rightarrow> columns" where
  "header_columns body = find_columns (parseCSVLine (hd (body_lines body)))"

definition data_lines :: "string \<Rightarrow> string list" where
  "data_lines body = tl (body_lines body)"

section \<open>Listing events\<close>

text \<open>
  SQLite's \<open>LIKE\<close>, as the query uses it (no \<open>ESCAPE\<close>): \<open>%\<close> in the pattern stands for any
  run of characters, \<open>_\<close> for any one character, and any other character for itself, upper
  and lower case ASCII letters taken as equal.  \<open>NULL LIKE p\<close> is not true.
\<close>

definition to_lower :: "char \<Rightarrow> char" where
  "to_lower c =
     (let n = (of_char c :: nat) in if 65 \<le> n \<and> n \<le> 90 then char_of (n + 32) else c)"

fun sql_like :: "string \<Rightarrow> string \<Rightarrow> bool" where
  "sql_like [] text = (text = [])"
| "sql_like (p # ps) [] = (p = CHR ''%'' \<and> sql_like ps [])"
| "sql_like (p # ps) (c # cs) =
     (if p = CHR ''%'' then sql_like ps (c # cs) \<or> sql_like (p # ps) cs
      else if p = CHR ''_'' then sql_like ps cs
      else to_lower p = to_lower c \<and> sql_like ps cs)"

definition column_like :: "string option \<Rightarrow> string \<Rightarrow> bool" where
  "column_like col pat = (case col of None \<Rightarrow> False | Some text \<Rightarrow> sql_like pat text)"

text \<open>
  The validated query of \<open>GET /\<close>.  A filter is added to the statement when its value is
  truthy: a string that is not empty, a number that is not zero.
\<close>

record list_query =
  q_event_type :: "string option"
  q_start :: "int option"
  q_end :: "int option"
  q_tags :: "string option"
  q_limit :: nat
  q_offset :: nat

definition tagList :: "string \<Rightarrow> string list" where
  "tagList tgs = map trim (split_on CHR '','' tgs)"

definition tag_pattern :: "string \<Rightarrow> string" where
  "tag_pattern tag = [CHR ''%'', CHR 0x22] @ tag @ [CHR 0x22, CHR ''%'']"

definition where_clause :: "string \<Rightarrow> list_query \<Rightarrow> event \<Rightarrow> bool" where
  "where_clause uid q row =
     (user_id row = uid \<and>
      (case q_event_type q of
         Some t \<Rightarrow> if t \<noteq> [] then event_type row = Some t else True
       | None \<Rightarrow> True) \<and>
      (case q_start q of
         Some s \<Rightarrow> if s \<noteq> 0 then timestamp row \<ge> s else True
       | None \<Rightarrow> True) \<and>
      (case q_end q of
         Some s \<Rightarrow> if s \<noteq> 0 then timestamp row \<le> s else True
       | None \<Rightarrow> True) \<and>
      (case q_tags q of
         Some tgs \<Rightarrow>
           if tgs \<noteq> [] then list_all (\<lambda>tag. column_like (tags row) (tag_pattern tag)) (tagList tgs)
           else True
       | None \<Rightarrow> True))"

text \<open>
  \<open>ORDER BY timestamp DESC LIMIT ? OFFSET ?\<close>; rows of equal timestamp are kept in table
  order (the database leaves their order open).
\<close>

definition select_events :: "string \<Rightarrow> db \<Rightarrow> list_query \<Rightarrow> event list" where
  "select_events uid st q =
     take (q_limit q)
       (drop (q_offset q)
          (sort_key (\<lambda>row. - timestamp row) (filter (where_clause uid q) (events st))))"

record listed_event =
  le_row :: event
  le_data :: json
  le_tags :: json

definition parse_stored :: "env \<Rightarrow> json \<Rightarrow> string option \<Rightarrow> string + json" where
  "parse_stored e dflt col =
     (case col of
        None \<Rightarrow> Inr dflt
      | Some s \<Rightarrow> if s = [] then Inr dflt else json_parse e s)"

fun parse_rows :: "env \<Rightarrow> event list \<Rightarrow> string + listed_event list" where
  "parse_rows e [] = Inr []"
| "parse_rows e (row # rows) =
     (case parse_stored e JNull (data row) of
        Inl m \<Rightarrow> Inl m
      | Inr d \<Rightarrow>
          (case parse_stored e (JArr []) (tags row) of
             Inl m \<Rightarrow> Inl m
           | Inr t \<Rightarrow>
               (case parse_rows e rows of
                  Inl m \<Rightarrow> Inl m
                | Inr out \<Rightarrow> Inr (\<lparr>le_row = row, le_data = d, le_tags = t\<rparr> # out))))"

definition list_events :: "env \<Rightarrow> string \<Rightarrow> db \<Rightarrow> list_query \<Rightarrow> string + listed_event list" where
  "list_events e uid st q = parse_rows e (select_events uid st q)"

section \<open>A sample environment\<close>

text \<open>
  Concrete values of the platform functions on the strings used in the examples below:
  \<open>new Date("2024-01-01T00:00:00Z").getTime()\<close> is \<open>1704067200000\<close>, \<open>new Date("not-a-date")\<close>
  is invalid, \<open>JSON.parse\<close> decodes \<open>5\<close>, \<open>true\<close>, \<open>{"km":5}\<close>, \<open>["health"]\<close> and
  \<open>["health","am"]\<close> and rejects \<open>{km\<close>; every insert succeeds.
\<close>

definition sample_dates :: "(string \<times> int) list" where
  "sample_dates = [(''2024-01-01T00:00:00Z'', 1704067200000)]"

definition sample_json :: "(string \<times> json) list" where
  "sample_json =
     [(''5'', JNum 5),
      (''true'', JBool True),
      ([CHR ''{'', CHR 0x22, CHR ''k'', CHR ''m'', CHR 0x22, CHR '':'', CHR ''5'', CHR ''}''],
         JObj [(''km'', JNum 5)]),
      ([CHR ''['', CHR 0x22] @ ''health'' @ [CHR 0x22, CHR '']''], JArr [JStr ''health'']),
      ([CHR ''['', CHR 0x22] @ ''health'' @ [CHR 0x22, CHR '','', CHR 0x22] @ ''am''
         @ [CHR 0x22, CHR '']''], JArr [JStr ''health'', JStr ''am''])]"

definition sample_env :: env where
  "sample_env =
     \<lparr>date_getTime = map_of sample_dates,
      json_parse = (\<lambda>s. case map_of sample_json s of
                          Some v \<Rightarrow> Inr v
                        | None \<Rightarrow> Inl ''Unexpected token''),
      ulid = (\<lambda>n. ''01H'' @ show_nat n),
      now = 1704067200000,
      db_error = (\<lambda>rows row. None)\<rparr>"

definition empty_db :: db where
  "empty_db = \<lparr>events = [], ulid_calls = 0\<rparr>"

text \<open>Text bodies are written line by line.\<close>

definition unlines :: "string list \<Rightarrow> string" where
  "unlines ls = join [CHR 0x0A] ls"

section \<open>Properties of the delimited-text parser\<close>

lemma split_on_nonempty: "split_on d s \<noteq> []"
  by (induction s) (auto split: list.splits)

lemma split_on_no_sep: "d \<notin> set s \<Longrightarrow> split_on d s = [s]"
  by (induction s) auto

lemma length_split_on: "length (split_on d s) = Suc (length (filter (\<lambda>c. c = d) s))"
  by (induction s) (auto split: list.splits simp: split_on_nonempty)

lemma split_on_short: "length (split_on d s) < 2 \<longleftrightarrow> d \<notin> set s"
  by (auto simp add: length_split_on filter_empty_conv less_Suc_eq)

lemma parse_loop_plain:
  "CHR 0x22 \<notin> set s \<Longrightarrow> inQ \<or> CHR '','' \<notin> set s \<Longrightarrow>
   parse_loop r cur inQ (s @ rest) = parse_loop r (cur @ s) inQ rest"
  by (induction s arbitrary: cur) auto

lemma parse_loop_plain_end:
  "CHR 0x22 \<notin> set s \<Longrightarrow> inQ \<or> CHR '','' \<notin> set s \<Longrightarrow>
   parse_loop r cur inQ s = r @ [trim (cur @ s)]"
  using parse_loop_plain [of s inQ r cur "[]"] by simp

lemma parse_loop_fields:
  "fs \<noteq> [] \<Longrightarrow> \<forall>f \<in> set fs. CHR 0x22 \<notin> set f \<and> CHR '','' \<notin> set f \<Longrightarrow>
   parse_loop r [] False (join '','' fs) = r @ map trim fs"
proof (induction fs arbitrary: r)
  case Nil
  then show ?case by simp
next
  case (Cons x xs)
  show ?case
  proof (cases xs)
    case Nil
    with Cons.prems show ?thesis by (simp add: parse_loop_plain_end)
  next
    case (Cons y ys)
    have "parse_loop r [] False (x @ '','' @ join '','' (y # ys))
          = parse_loop r x False ('','' @ join '','' (y # ys))"
      using Cons.prems parse_loop_plain [of x False r "[]"] by simp
    also have "\<dots> = parse_loop (r @ [trim x]) [] False (join '','' (y # ys))" by simp
    also have "\<dots> = (r @ [trim x]) @ map trim (y # ys)"
      using Cons.IH [of "r @ [trim x]"] Cons.prems Cons by simp
    finally show ?thesis using Cons by simp
  qed
qed

lemma quoted_field:
  assumes "CHR 0x22 \<notin> set m"
  shows "parse_loop r [] False (CHR 0x22 # m @ CHR 0x22 # CHR '','' # rest)
         = parse_loop (r @ [trim m]) [] False rest"
proof -
  have "parse_loop r [] False (CHR 0x22 # m @ CHR 0x22 # CHR '','' # rest)
        = parse_loop r [] True (m @ CHR 0x22 # CHR '','' # rest)"
    by (cases m) (use assms in auto)
  also have "\<dots> = parse_loop r m True (CHR 0x22 # CHR '','' # rest)"
    using parse_loop_plain [OF assms, of True r "[]"] by simp
  also have "\<dots> = parse_loop (r @ [trim m]) [] False rest" by simp
  finally show ?thesis .
qed

lemma doubled_quote_field:
  assumes "CHR 0x22 \<notin> set m" "CHR 0x22 \<notin> set m'"
  shows "parse_loop r [] False (CHR 0x22 # m @ CHR 0x22 # CHR 0x22 # m' @ CHR 0x22 # CHR '','' # rest)
         = parse_loop (r @ [trim (m @ CHR 0x22 # m')]) [] False rest"
proof -
  have "parse_loop r [] False (CHR 0x22 # m @ CHR 0x22 # CHR 0x22 # m' @ CHR 0x22 # CHR '','' # rest)
        = parse_loop r [] True (m @ CHR 0x22 # CHR 0x22 # m' @ CHR 0x22 # CHR '','' # rest)"
    by (cases m) (use assms in auto)
  also have "\<dots> = parse_loop r m True (CHR 0x22 # CHR 0x22 # m' @ CHR 0x22 # CHR '','' # rest)"
    using parse_loop_plain [OF assms(1), of True r "[]"] by simp
  also have "\<dots> = parse_loop r (m @ [CHR 0x22]) True (m' @ CHR 0x22 # CHR '','' # rest)"
    by simp
  also have "\<dots> = parse_loop r (m @ [CHR 0x22] @ m') True (CHR 0x22 # CHR '','' # rest)"
    using parse_loop_plain [OF assms(2), of True r "m @ [CHR 0x22]"] by simp
  also have "\<dots> = parse_loop (r @ [trim (m @ CHR 0x22 # m')]) [] False rest" by simp
  finally show ?thesis .
qed

lemma trim_last: "trim x \<noteq> [] \<Longrightarrow> \<not> is_ws (last (trim x))"
proof -
  assume ne: "trim x \<noteq> []"
  then have "dropWhile is_ws (rev (dropWhile is_ws x)) \<noteq> []" by (simp add: trim_def)
  then have "\<not> is_ws (hd (dropWhile is_ws (rev (dropWhile is_ws x))))" by (rule hd_dropWhile)
  with ne show ?thesis by (simp add: trim_def last_rev)
qed

lemma dropWhile_rev_keeps_hd:
  assumes "y \<noteq> []" "\<not> P (hd y)"
  shows "dropWhile P (rev y) \<noteq> [] \<and> last (dropWhile P (rev y)) = hd y"
proof -
  from assms obtain a ys where y: "y = a # ys" "\<not> P a" by (cases y) auto
  have "dropWhile P (rev ys @ [a]) = (if \<forall>z \<in> set (rev ys). P z then [a] else dropWhile P (rev ys) @ [a])"
    using y(2) by (simp add: dropWhile_append)
  then show ?thesis using y by (auto split: if_splits)
qed

lemma trim_hd: "trim x \<noteq> [] \<Longrightarrow> \<not> is_ws (hd (trim x))"
proof -
  assume ne: "trim x \<noteq> []"
  let ?y = "dropWhile is_ws x"
  have "?y = [] \<Longrightarrow> trim x = []" by (simp only: trim_def rev.simps dropWhile.simps)
  with ne have y: "?y \<noteq> []" by blast
  then have nws: "\<not> is_ws (hd ?y)" by (rule hd_dropWhile)
  from dropWhile_rev_keeps_hd [of ?y is_ws, OF y nws]
  have "dropWhile is_ws (rev ?y) \<noteq> []" "last (dropWhile is_ws (rev ?y)) = hd ?y" by simp_all
  then have "hd (trim x) = hd ?y" by (simp add: trim_def hd_rev)
  with nws show ?thesis by simp
qed

lemma parse_loop_trimmed:
  "f \<in> set (parse_loop r cur inQ s) \<Longrightarrow> f \<in> set r \<or> (\<exists>x. f = trim x)"
  by (induction r cur inQ s rule: parse_loop.induct) (auto split: if_splits list.splits)

lemma parseCSVLine_trimmed:
  assumes "f \<in> set (parseCSVLine line)" "f \<noteq> []"
  shows "\<not> is_ws (hd f) \<and> \<not> is_ws (last f)"
proof -
  from assms(1) parse_loop_trimmed [of f "[]" "[]" False line]
  obtain x where "f = trim x" by (auto simp: parseCSVLine_def)
  with assms(2) trim_hd [of x] trim_last [of x] show ?thesis by simp
qed

text \<open>
  Claim C7.  \<open>parseCSVLine\<close> splits a line at the commas outside double quotes: a quoted
  field keeps its commas, a doubled double quote inside a quoted field gives one quote
  character, and a line of unquoted fields gives the fields trimmed of surrounding
  whitespace.  Here \<open>p\<close> and \<open>q\<close> are unquoted fields around a quoted one, \<open>m\<close> and \<open>m'\<close>
  the text inside the quotes, \<open>fs\<close> a list of unquoted fields.  At any point of a line,
  a comma met inside quotes is added to the field and a doubled quote inside quotes adds
  one quote character; and no field of any line starts or ends with whitespace.  The two
  lines of the specification parse as it says.
\<close>

theorem parseCSVLine_dialect:
  assumes "CHR 0x22 \<notin> set p \<union> set m \<union> set m' \<union> set q"
    and "CHR '','' \<notin> set p \<union> set q"
    and "fs \<noteq> []"
    and "\<forall>f \<in> set fs. CHR 0x22 \<notin> set f \<and> CHR '','' \<notin> set f"
  shows \<open>parseCSVLine (p @ '',"'' @ m @ ''",'' @ q) = [trim p, trim m, trim q]
       \<and> parseCSVLine (p @ '',"'' @ m @ ''""'' @ m' @ ''",'' @ q)
           = [trim p, trim (m @ ''"'' @ m'), trim q]
       \<and> parseCSVLine (join '','' fs) = map trim fs
       \<and> parse_loop r cur True (CHR '','' # rest) = parse_loop r (cur @ '','') True rest
       \<and> parse_loop r cur True (CHR 0x22 # CHR 0x22 # rest)
           = parse_loop r (cur @ [CHR 0x22]) True rest
       \<and> (\<forall>f \<in> set (parseCSVLine line). f \<noteq> [] \<longrightarrow> \<not> is_ws (hd f) \<and> \<not> is_ws (last f))
       \<and> parseCSVLine ''a,"b,c",d'' = [''a'', ''b,c'', ''d'']
       \<and> parseCSVLine ''a,"b""c",d'' = [''a'', ''b"c'', ''d'']\<close>
proof -
  have p: "CHR 0x22 \<notin> set p" "CHR '','' \<notin> set p" and q: "CHR 0x22 \<notin> set q" "CHR '','' \<notin> set q"
    and m: "CHR 0x22 \<notin> set m" and m': "CHR 0x22 \<notin> set m'"
    using assms(1,2) by auto
  have start: "parse_loop [] [] False (p @ CHR '','' # rest) = parse_loop [trim p] [] False rest"
    for rest
    using parse_loop_plain [OF p(1), of False "[]" "[]" "CHR '','' # rest"] p(2) by simp
  have finish: "parse_loop r [] False q = r @ [trim q]" for r
    using parse_loop_plain_end [OF q(1), of False r "[]"] q(2) by simp
  have 1: \<open>parseCSVLine (p @ '',"'' @ m @ ''",'' @ q) = [trim p, trim m, trim q]\<close>
    using start quoted_field [OF m] finish by (simp add: parseCSVLine_def)
  have 2: \<open>parseCSVLine (p @ '',"'' @ m @ ''""'' @ m' @ ''",'' @ q)
           = [trim p, trim (m @ ''"'' @ m'), trim q]\<close>
    using start doubled_quote_field [OF m m'] finish by (simp add: parseCSVLine_def)
  have 3: "parseCSVLine (join '','' fs) = map trim fs"
    using parse_loop_fields [OF assms(3,4), of "[]"] by (simp add: parseCSVLine_def)
  have 4: \<open>parseCSVLine ''a,"b,c",d'' = [''a'', ''b,c'', ''d'']\<close>
    by (simp add: parseCSVLine_def trim_def is_ws_def)
  have 5: \<open>parseCSVLine ''a,"b""c",d'' = [''a'', ''b"c'', ''d'']\<close>
    by (simp add: parseCSVLine_def trim_def is_ws_def)
  have 6: "parse_loop r cur True (CHR '','' # rest) = parse_loop r (cur @ '','') True rest"
    by simp
  have 7: "parse_loop r cur True (CHR 0x22 # CHR 0x22 # rest)
           = parse_loop r (cur @ [CHR 0x22]) True rest"
    by simp
  have 8: "\<forall>f \<in> set (parseCSVLine line). f \<noteq> [] \<longrightarrow> \<not> is_ws (hd f) \<and> \<not> is_ws (last f)"
    using parseCSVLine_trimmed by blast
  from 1 2 3 4 5 6 7 8 show ?thesis by blast
qed

theorem parseCSVLine_dialect_witness:
  \<open>CHR 0x22 \<notin> set ''x '' \<union> set ''1,2'' \<union> set ''say '' \<union> set '' y''
   \<and> CHR '','' \<notin> set ''x '' \<union> set '' y''
   \<and> [''  run '', ''5 km''] \<noteq> []
   \<and> list_all (\<lambda>f. CHR 0x22 \<notin> set f \<and> CHR '','' \<notin> set f) [''  run '', ''5 km'']
   \<and> parseCSVLine ''x ,"1,2", y'' = [''x'', ''1,2'', ''y'']
   \<and> parseCSVLine ''x ,"1,2""say ", y'' = [''x'', ''1,2"say'', ''y'']
   \<and> parseCSVLine ''  run ,5 km'' = [''run'', ''5 km'']
   \<and> ''run'' \<in> set (parseCSVLine ''  run ,5 km'')
   \<and> \<not> is_ws (hd ''run'') \<and> \<not> is_ws (last ''run'')\<close>
  using parseCSVLine_dialect [of "''x ''" "''1,2''" "''say ''" "'' y''" "[''  run '', ''5 km'']"
      _ _ _ "''  run ,5 km''"]
  by (simp add: trim_def is_ws_def)

section \<open>Properties of the timestamp normalizer\<close>



section \<open>Batches rejected as a whole\<close>

lemma body_lines_short: "length (body_lines body) < 2 \<longleftrightarrow> CHR 0x0A \<notin> set (trim body)"
  by (simp add: body_lines_def split_on_short)

text \<open>
  Claim C10.  A text body that, once trimmed, holds no line feed (so fewer than two
  lines: a header alone, or nothing) is rejected by import and by preview with one
  request-level error of status 400, and the state is the one given: nothing is inserted.
\<close>

theorem too_few_lines_rejected:
  assumes "CHR 0x0A \<notin> set (trim body)"
  shows "length (body_lines body) < 2
       \<and> csv_import e uid st body
           = (ImportError 400 ''CSV must have at least a header and one data row'', st)
       \<and> csv_preview e st body
           = (PreviewError 400 ''CSV must have at least a header and one data row'', st)"
  using assms by (simp add: body_lines_short csv_import_def csv_preview_def)

theorem too_few_lines_rejected_witness:
  "CHR 0x0A \<notin> set (trim (unlines [''timestamp,event_type'', '''']))
   \<and> length (body_lines (unlines [''timestamp,event_type'', ''''])) < 2
   \<and> csv_import sample_env ''u1'' empty_db (unlines [''timestamp,event_type'', ''''])
       = (ImportError 400 ''CSV must have at least a header and one data row'', empty_db)
   \<and> csv_preview sample_env empty_db (unlines [''timestamp,event_type'', ''''])
       = (PreviewError 400 ''CSV must have at least a header and one data row'', empty_db)"
  using too_few_lines_rejected [of "unlines [''timestamp,event_type'', '''']" sample_env "''u1''" empty_db]
  by (simp add: unlines_def trim_def is_ws_def)

text \<open>
  Claim C8.  When the header line lacks \<open>timestamp\<close> or \<open>event_type\<close>, text-mode import
  answers with a single error of status 400 and returns the state as given: no row has
  run (no identifier is drawn) and no event is inserted.  The message names the first
  missing column, unless the body has fewer than two lines, which is reported first.
\<close>

theorem missing_column_rejected:
  assumes "''timestamp'' \<notin> set (parseCSVLine (hd (body_lines body)))
         \<or> ''event_type'' \<notin> set (parseCSVLine (hd (body_lines body)))"
  shows "csv_import e uid st body =
           (ImportError 400
              (if length (body_lines body) < 2
                 then ''CSV must have at least a header and one data row''
               else if ''timestamp'' \<notin> set (parseCSVLine (hd (body_lines body)))
                 then ''Missing required column: timestamp''
               else ''Missing required column: event_type''),
            st)"
  using assms by (auto simp add: csv_import_def Let_def)

theorem missing_column_rejected_witness:
  "''event_type'' \<notin> set (parseCSVLine (hd (body_lines (unlines [''timestamp,type'', ''2024-01-01T00:00:00Z,run'']))))
   \<and> csv_import sample_env ''u1'' empty_db (unlines [''timestamp,type'', ''2024-01-01T00:00:00Z,run''])
       = (ImportError 400 ''Missing required column: event_type'', empty_db)"
  using missing_column_rejected [of "unlines [''timestamp,type'', ''2024-01-01T00:00:00Z,run'']" sample_env "''u1''" empty_db]
  by (simp add: unlines_def body_lines_def parseCSVLine_def trim_def is_ws_def)

section \<open>The report of a batch\<close>

lemma length_json_outcomes: "length (json_outcomes e uid st evs) = length evs"
  by (induction evs arbitrary: st) (auto split: prod.splits)

lemma length_csv_outcomes: "length (csv_outcomes e uid cols st ls) = length ls"
  by (induction ls arbitrary: st) (auto split: prod.splits)

lemma length_tagged: "length (tagged ref i os) = length (filter (\<lambda>r. r \<noteq> None) os)"
  by (induction ref i os rule: tagged.induct) auto

lemma tagged_nth:
  "k < length os \<Longrightarrow> os ! k = Some m \<Longrightarrow> ref (i + k) @ '': '' @ m \<in> set (tagged ref i os)"
proof (induction ref i os arbitrary: k rule: tagged.induct)
  case (1 ref i)
  then show ?case by simp
next
  case (2 ref i os)
  then show ?case by (cases k) auto
next
  case (3 ref i m' os)
  then show ?case by (cases k) auto
qed

lemma json_loop_outcomes:
  "\<exists>st'. json_loop e uid i evs (st, s, errs)
     = (st', s + length (filter (\<lambda>r. r = None) (json_outcomes e uid st evs)),
        errs @ tagged (\<lambda>j. ''Event '' @ show_nat j) i (json_outcomes e uid st evs))"
proof (induction evs arbitrary: i st s errs)
  case Nil
  then show ?case by simp
next
  case (Cons ev evs)
  obtain r st1 where step: "json_try e uid st ev = (r, st1)" by (cases "json_try e uid st ev")
  show ?case
  proof (cases r)
    case None
    with step Cons.IH [of "Suc i" st1 "Suc s" errs] show ?thesis by auto
  next
    case (Some msg)
    with step Cons.IH [of "Suc i" st1 s "errs @ [''Event '' @ show_nat i @ '': '' @ msg]"]
    show ?thesis by auto
  qed
qed

lemma csv_loop_outcomes:
  "\<exists>st' k. csv_loop e uid cols i ls (st, s, errs)
     = (st', s + k, errs @ tagged (\<lambda>j. ''Line '' @ show_nat (j + 1)) i (csv_outcomes e uid cols st ls))
     \<and> k + length (tagged (\<lambda>j. ''Line '' @ show_nat (j + 1)) i (csv_outcomes e uid cols st ls))
         + blank_lines ls = length ls"
proof (induction ls arbitrary: i st s errs)
  case Nil
  then show ?case by (simp add: blank_lines_def)
next
  case (Cons raw rest)
  show ?case
  proof (cases "trim raw = []")
    case True
    with Cons.IH [of "Suc i" st s errs] show ?thesis
      by (auto simp: blank_lines_def)
  next
    case False
    obtain r st1 where step: "csv_try e uid cols st (trim raw) = (r, st1)"
      by (cases "csv_try e uid cols st (trim raw)")
    show ?thesis
    proof (cases r)
      case None
      from Cons.IH [of "Suc i" st1 "Suc s" errs] obtain st' k where
        "csv_loop e uid cols (Suc i) rest (st1, Suc s, errs)
           = (st', Suc s + k, errs @ tagged (\<lambda>j. ''Line '' @ show_nat (j + 1)) (Suc i) (csv_outcomes e uid cols st1 rest))"
        "k + length (tagged (\<lambda>j. ''Line '' @ show_nat (j + 1)) (Suc i) (csv_outcomes e uid cols st1 rest))
           + blank_lines rest = length rest"
        by blast
      with None step False show ?thesis
        by (intro exI [of _ st'] exI [of _ "Suc k"]) (simp add: blank_lines_def)
    next
      case (Some msg)
      from Cons.IH [of "Suc i" st1 s "errs @ [''Line '' @ show_nat (i + 1) @ '': '' @ msg]"]
      obtain st' k where
        "csv_loop e uid cols (Suc i) rest (st1, s, errs @ [''Line '' @ show_nat (i + 1) @ '': '' @ msg])
           = (st', s + k, (errs @ [''Line '' @ show_nat (i + 1) @ '': '' @ msg])
                @ tagged (\<lambda>j. ''Line '' @ show_nat (j + 1)) (Suc i) (csv_outcomes e uid cols st1 rest))"
        "k + length (tagged (\<lambda>j. ''Line '' @ show_nat (j + 1)) (Suc i) (csv_outcomes e uid cols st1 rest))
           + blank_lines rest = length rest"
        by blast
      with Some step False show ?thesis
        by (intro exI [of _ st'] exI [of _ k]) (simp add: blank_lines_def)
    qed
  qed
qed

lemma csv_import_report:
  assumes "csv_import e uid st body = (ImportReport i t errs, st')"
  shows "2 \<le> length (body_lines body)
       \<and> ''timestamp'' \<in> set (parseCSVLine (hd (body_lines body)))
       \<and> ''event_type'' \<in> set (parseCSVLine (hd (body_lines body)))
       \<and> csv_loop e uid (find_columns (parseCSVLine (hd (body_lines body)))) 1 (tl (body_lines body)) (st, 0, [])
           = (st', i, errs)
       \<and> t = length (tl (body_lines body))"
  using assms by (auto simp: csv_import_def Let_def split: if_splits prod.splits)

text \<open>
  Claim C1, as the code has it.  In structured-batch mode \<open>imported + len(errors)\<close> is
  \<open>total\<close>, the number of records.  In text mode \<open>total\<close> is the number of physical
  lines after the header, and \<open>imported + len(errors)\<close> plus the number of those lines
  that are blank once trimmed is \<open>total\<close>: a blank line is passed over, counted in
  \<open>total\<close> but neither imported nor reported.
\<close>

theorem import_accounting:
  "(\<exists>i errs st'. json_import e uid st evs = (ImportReport i (length evs) errs, st')
       \<and> i + length errs = length evs)
   \<and> (\<forall>i t errs st'. csv_import e uid st body = (ImportReport i t errs, st') \<longrightarrow>
         t = length (tl (body_lines body))
       \<and> i + length errs + blank_lines (tl (body_lines body)) = t)"
proof (intro conjI allI impI)
  obtain st' where loop: "json_loop e uid 0 evs (st, 0, [])
     = (st', 0 + length (filter (\<lambda>r. r = None) (json_outcomes e uid st evs)),
        [] @ tagged (\<lambda>j. ''Event '' @ show_nat j) 0 (json_outcomes e uid st evs))"
    using json_loop_outcomes [of e uid 0 evs st 0 "[]"] by blast
  have "length (filter (\<lambda>r. r = None) (json_outcomes e uid st evs))
        + length (filter (\<lambda>r. r \<noteq> None) (json_outcomes e uid st evs)) = length evs"
    using sum_length_filter_compl [of "\<lambda>r. r = None" "json_outcomes e uid st evs"]
    by (simp add: length_json_outcomes)
  with loop show "\<exists>i errs st'. json_import e uid st evs = (ImportReport i (length evs) errs, st')
       \<and> i + length errs = length evs"
    by (simp add: json_import_def length_tagged)
next
  fix i t errs st'
  assume rep: "csv_import e uid st body = (ImportReport i t errs, st')"
  note r = csv_import_report [OF rep]
  from r show "t = length (tl (body_lines body))" by simp
  from r csv_loop_outcomes [of e uid "find_columns (parseCSVLine (hd (body_lines body)))" 1
        "tl (body_lines body)" st 0 "[]"]
  show "i + length errs + blank_lines (tl (body_lines body)) = t" by auto
qed

text \<open>
  The claim as stated fails on a batch with a blank data line: one row is imported, no
  error is reported, and \<open>total\<close> is 2.
\<close>

theorem import_accounting_counterexample:
  "fst (csv_import sample_env ''u1'' empty_db
          (unlines [''timestamp,event_type'', '''', ''2024-01-01T00:00:00Z,run'']))
     = ImportReport 1 2 []
   \<and> (1::nat) + length ([] :: string list) \<noteq> 2"
  by code_simp

theorem import_accounting_witness:
  "csv_import sample_env ''u1'' empty_db
      (unlines [''timestamp,event_type'', '''', ''2024-01-01T00:00:00Z,run'', ''not-a-date,run''])
     = (ImportReport 1 3 [''Line 4: Invalid timestamp: not-a-date''],
        \<lparr>events = [\<lparr>ev_id = ''01H0'', user_id = ''u1'', timestamp = 1704067200000,
            event_type = Some ''run'', data = None, tags = None,
            source = ''csv_import'', created_at = 1704067200000\<rparr>], ulid_calls = 2\<rparr>)
   \<and> blank_lines (tl (body_lines
        (unlines [''timestamp,event_type'', '''', ''2024-01-01T00:00:00Z,run'', ''not-a-date,run'']))) = 1
   \<and> (\<exists>i errs st'. json_import sample_env ''u1'' empty_db
          [\<lparr>ie_timestamp = TNum 1700000000, ie_event_type = ''walk'', ie_data = None, ie_tags = None\<rparr>,
           \<lparr>ie_timestamp = TStr ''not-a-date'', ie_event_type = ''walk'', ie_data = None, ie_tags = None\<rparr>]
        = (ImportReport i 2 errs, st') \<and> i + length errs = 2)"
proof -
  have run: "csv_import sample_env ''u1'' empty_db
      (unlines [''timestamp,event_type'', '''', ''2024-01-01T00:00:00Z,run'', ''not-a-date,run''])
     = (ImportReport 1 3 [''Line 4: Invalid timestamp: not-a-date''],
        \<lparr>events = [\<lparr>ev_id = ''01H0'', user_id = ''u1'', timestamp = 1704067200000,
            event_type = Some ''run'', data = None, tags = None,
            source = ''csv_import'', created_at = 1704067200000\<rparr>], ulid_calls = 2\<rparr>)"
    by code_simp
  from import_accounting [of sample_env "''u1''" empty_db
      "[\<lparr>ie_timestamp = TNum 1700000000, ie_event_type = ''walk'', ie_data = None, ie_tags = None\<rparr>,
        \<lparr>ie_timestamp = TStr ''not-a-date'', ie_event_type = ''walk'', ie_data = None, ie_tags = None\<rparr>]"
      "unlines [''timestamp,event_type'', '''', ''2024-01-01T00:00:00Z,run'', ''not-a-date,run'']"]
    run
  show ?thesis by auto
qed

text \<open>
  Claim C3, as the code has it.  The errors of a report are the messages thrown by the
  records of the batch, in order, each behind the reference of its record, and every
  record is run whatever the earlier ones did.  In text mode the reference is the
  physical line number, the header being line 1, so the failure of data row \<open>k + 1\<close>
  reads \<open>Line k + 2\<close>.  In structured-batch mode the reference is the index of the
  record counted from zero: the failure of the record at index \<open>k\<close> reads \<open>Event k\<close>.
\<close>

theorem import_error_references:
  "(\<exists>i st'. json_import e uid st evs
        = (ImportReport i (length evs)
             (tagged (\<lambda>j. ''Event '' @ show_nat j) 0 (json_outcomes e uid st evs)), st'))
   \<and> length (json_outcomes e uid st evs) = length evs
   \<and> (\<forall>k m. k < length evs \<and> json_outcomes e uid st evs ! k = Some m \<longrightarrow>
         ''Event '' @ show_nat k @ '': '' @ m \<in> set (errors (fst (json_import e uid st evs))))
   \<and> (\<forall>i t errs st'. csv_import e uid st body = (ImportReport i t errs, st') \<longrightarrow>
         errs = tagged (\<lambda>j. ''Line '' @ show_nat (j + 1)) 1
                  (csv_outcomes e uid (find_columns (parseCSVLine (hd (body_lines body)))) st
                     (tl (body_lines body)))
       \<and> length (csv_outcomes e uid (find_columns (parseCSVLine (hd (body_lines body)))) st
                    (tl (body_lines body))) = t
       \<and> (\<forall>k m. k < t
              \<and> csv_outcomes e uid (find_columns (parseCSVLine (hd (body_lines body)))) st
                    (tl (body_lines body)) ! k = Some m \<longrightarrow>
              ''Line '' @ show_nat (k + 2) @ '': '' @ m \<in> set errs))"
proof -
  let ?jos = "json_outcomes e uid st evs"
  obtain st1 where loop: "json_loop e uid 0 evs (st, 0, [])
     = (st1, 0 + length (filter (\<lambda>r. r = None) ?jos),
        [] @ tagged (\<lambda>j. ''Event '' @ show_nat j) 0 ?jos)"
    using json_loop_outcomes [of e uid 0 evs st 0 "[]"] by blast
  then have j1: "json_import e uid st evs
        = (ImportReport (length (filter (\<lambda>r. r = None) ?jos)) (length evs)
             (tagged (\<lambda>j. ''Event '' @ show_nat j) 0 ?jos), st1)"
    by (simp add: json_import_def)
  have j3: "''Event '' @ show_nat k @ '': '' @ m \<in> set (errors (fst (json_import e uid st evs)))"
    if "k < length evs" "?jos ! k = Some m" for k m
    using tagged_nth [of k ?jos m "\<lambda>j. ''Event '' @ show_nat j" 0] that j1
    by (simp add: length_json_outcomes)
  have c: "errs = tagged (\<lambda>j. ''Line '' @ show_nat (j + 1)) 1
                  (csv_outcomes e uid (find_columns (parseCSVLine (hd (body_lines body)))) st
                     (tl (body_lines body)))
       \<and> length (csv_outcomes e uid (find_columns (parseCSVLine (hd (body_lines body)))) st
                    (tl (body_lines body))) = t
       \<and> (\<forall>k m. k < t
              \<and> csv_outcomes e uid (find_columns (parseCSVLine (hd (body_lines body)))) st
                    (tl (body_lines body)) ! k = Some m \<longrightarrow>
              ''Line '' @ show_nat (k + 2) @ '': '' @ m \<in> set errs)"
    if rep: "csv_import e uid st body = (ImportReport i t errs, st')" for i t errs st'
  proof -
    let ?cos = "csv_outcomes e uid (find_columns (parseCSVLine (hd (body_lines body)))) st
                  (tl (body_lines body))"
    note r = csv_import_report [OF rep]
    from r csv_loop_outcomes [of e uid "find_columns (parseCSVLine (hd (body_lines body)))" 1
        "tl (body_lines body)" st 0 "[]"]
    have errs: "errs = tagged (\<lambda>j. ''Line '' @ show_nat (j + 1)) 1 ?cos" by auto
    have len: "length ?cos = t" using r by (simp add: length_csv_outcomes)
    have "''Line '' @ show_nat (k + 2) @ '': '' @ m \<in> set errs"
      if "k < t" "?cos ! k = Some m" for k m
      using tagged_nth [of k ?cos m "\<lambda>j. ''Line '' @ show_nat (j + 1)" 1] that len errs
      by (simp add: add.commute)
    with errs len show ?thesis by blast
  qed
  from j1 j3 c show ?thesis
    by (simp add: length_json_outcomes)
qed

text \<open>
  The claim as stated fails in structured-batch mode: the failure of the first record of a
  batch is reported as \<open>Event 0\<close>.
\<close>

theorem import_error_references_counterexample:
  "errors (fst (json_import sample_env ''u1'' empty_db
      [\<lparr>ie_timestamp = TStr ''not-a-date'', ie_event_type = ''walk'', ie_data = None, ie_tags = None\<rparr>]))
     = [''Event 0: Invalid timestamp: not-a-date'']
   \<and> ''Event 0: Invalid timestamp: not-a-date'' \<noteq> ''Event 1: Invalid timestamp: not-a-date''"
  by code_simp

theorem import_error_references_witness:
  "json_outcomes sample_env ''u1'' empty_db
      [\<lparr>ie_timestamp = TNum 1700000000, ie_event_type = ''walk'', ie_data = None, ie_tags = None\<rparr>,
       \<lparr>ie_timestamp = TStr ''not-a-date'', ie_event_type = ''walk'', ie_data = None, ie_tags = None\<rparr>] ! 1
     = Some ''Invalid timestamp: not-a-date''
   \<and> ''Event 1: Invalid timestamp: not-a-date''
       \<in> set (errors (fst (json_import sample_env ''u1'' empty_db
      [\<lparr>ie_timestamp = TNum 1700000000, ie_event_type = ''walk'', ie_data = None, ie_tags = None\<rparr>,
       \<lparr>ie_timestamp = TStr ''not-a-date'', ie_event_type = ''walk'', ie_data = None, ie_tags = None\<rparr>])))
   \<and> csv_import sample_env ''u1'' empty_db
        (unlines [''timestamp,event_type'', ''2024-01-01T00:00:00Z,run'', ''not-a-date,run''])
       = (ImportReport 1 2 [''Line 3: Invalid timestamp: not-a-date''],
          \<lparr>events = [\<lparr>ev_id = ''01H0'', user_id = ''u1'', timestamp = 1704067200000,
              event_type = Some ''run'', data = None, tags = None,
              source = ''csv_import'', created_at = 1704067200000\<rparr>], ulid_calls = 2\<rparr>)
   \<and> csv_outcomes sample_env ''u1''
        (find_columns (parseCSVLine (hd (body_lines
           (unlines [''timestamp,event_type'', ''2024-01-01T00:00:00Z,run'', ''not-a-date,run''])))))
        empty_db
        (tl (body_lines (unlines [''timestamp,event_type'', ''2024-01-01T00:00:00Z,run'', ''not-a-date,run''])))
       = [None, Some ''Invalid timestamp: not-a-date'']"
proof -
  have run: "csv_import sample_env ''u1'' empty_db
        (unlines [''timestamp,event_type'', ''2024-01-01T00:00:00Z,run'', ''not-a-date,run''])
       = (ImportReport 1 2 [''Line 3: Invalid timestamp: not-a-date''],
          \<lparr>events = [\<lparr>ev_id = ''01H0'', user_id = ''u1'', timestamp = 1704067200000,
              event_type = Some ''run'', data = None, tags = None,
              source = ''csv_import'', created_at = 1704067200000\<rparr>], ulid_calls = 2\<rparr>)"
    by code_simp
  have outs: "csv_outcomes sample_env ''u1''
        (find_columns (parseCSVLine (hd (body_lines
           (unlines [''timestamp,event_type'', ''2024-01-01T00:00:00Z,run'', ''not-a-date,run''])))))
        empty_db
        (tl (body_lines (unlines [''timestamp,event_type'', ''2024-01-01T00:00:00Z,run'', ''not-a-date,run''])))
       = [None, Some ''Invalid timestamp: not-a-date'']"
    by code_simp
  have jouts: "json_outcomes sample_env ''u1'' empty_db
      [\<lparr>ie_timestamp = TNum 1700000000, ie_event_type = ''walk'', ie_data = None, ie_tags = None\<rparr>,
       \<lparr>ie_timestamp = TStr ''not-a-date'', ie_event_type = ''walk'', ie_data = None, ie_tags = None\<rparr>] ! 1
     = Some ''Invalid timestamp: not-a-date''"
    by code_simp
  have sn: "show_nat 1 = ''1''" by code_simp
  from import_error_references [of sample_env "''u1''" empty_db
      "[\<lparr>ie_timestamp = TNum 1700000000, ie_event_type = ''walk'', ie_data = None, ie_tags = None\<rparr>,
        \<lparr>ie_timestamp = TStr ''not-a-date'', ie_event_type = ''walk'', ie_data = None, ie_tags = None\<rparr>]"
      "unlines [''timestamp,event_type'', ''2024-01-01T00:00:00Z,run'', ''not-a-date,run'']"]
  have "''Event '' @ show_nat 1 @ '': '' @ ''Invalid timestamp: not-a-date''
       \<in> set (errors (fst (json_import sample_env ''u1'' empty_db
      [\<lparr>ie_timestamp = TNum 1700000000, ie_event_type = ''walk'', ie_data = None, ie_tags = None\<rparr>,
       \<lparr>ie_timestamp = TStr ''not-a-date'', ie_event_type = ''walk'', ie_data = None, ie_tags = None\<rparr>])))"
    using jouts by (metis length_Cons less_Suc_eq list.size(3) One_nat_def)
  with sn run outs jouts show ?thesis by simp
qed

section \<open>Preview against import\<close>

subsection \<open>Line references are unambiguous\<close>












subsection \<open>One row under preview and under import\<close>




lemma run_insert_fails: "run_insert e st row = Inl m \<Longrightarrow> db_error e (events st) row = Some m"
  by (simp add: run_insert_def split: option.splits)







lemma length_preview_loop:
  "length (preview_loop e cols i ls) = length (filter (\<lambda>l. trim l \<noteq> []) ls)"
  by (induction ls arbitrary: i) (simp_all add: Let_def)

lemma preview_window:
  "2 \<le> length lines \<Longrightarrow> take (min (length lines) 6 - 1) (tl lines) = take 5 (tl lines)"
  by (cases "6 \<le> length lines") (simp_all add: min_def)

lemma csv_preview_ok:
  assumes "2 \<le> length (body_lines body)"
    and "''timestamp'' \<in> set (parseCSVLine (hd (body_lines body)))"
    and "''event_type'' \<in> set (parseCSVLine (hd (body_lines body)))"
  shows "csv_preview e st body
         = (PreviewOk (parseCSVLine (hd (body_lines body))) (length (data_lines body))
              (preview_loop e (header_columns body) 1 (take 5 (data_lines body))), st)"
  using assms preview_window [OF assms(1)]
  by (simp add: csv_preview_def Let_def data_lines_def header_columns_def)





text \<open>
  Claim C6.  A \<open>data\<close> cell that is not an object, or a \<open>tags\<close> cell that is not an array,
  should make the row an error.  The handler only asks that the cell decodes: with the
  \<open>data\<close> cell \<open>5\<close> and the \<open>tags\<close> cell \<open>true\<close> the row is imported, no error is
  reported, and the table holds the texts \<open>5\<close> and \<open>true\<close> in its \<open>data\<close> and \<open>tags\<close>
  columns.
\<close>

theorem csv_import_accepts_any_json:
  "csv_import sample_env ''u1'' empty_db
      (unlines [''timestamp,event_type,data,tags'', ''2024-01-01T00:00:00Z,run,5,true''])
     = (ImportReport 1 1 [],
        \<lparr>events = [\<lparr>ev_id = ''01H0'', user_id = ''u1'', timestamp = 1704067200000,
            event_type = Some ''run'', data = Some ''5'', tags = Some ''true'',
            source = ''csv_import'', created_at = 1704067200000\<rparr>], ulid_calls = 1\<rparr>)"
  by code_simp

section \<open>The shape of a preview\<close>

text \<open>
  Claim C9, as the code has it.  For a text body with a valid header and at least one
  data line, preview returns the state as given (it writes nothing), the columns read
  from the header line, \<open>total_rows\<close> equal to the number of lines after the header in the
  whole body, and one sample row for each of the first five data lines that is not blank,
  so at most five.  On a body of 50 data lines of which the first five are not blank it
  returns exactly 5 sample rows and \<open>total_rows = 50\<close>.
\<close>

theorem preview_shape:
  assumes "2 \<le> length (body_lines body)"
    and "''timestamp'' \<in> set (parseCSVLine (hd (body_lines body)))"
    and "''event_type'' \<in> set (parseCSVLine (hd (body_lines body)))"
  shows "\<exists>rows. csv_preview e st body
           = (PreviewOk (parseCSVLine (hd (body_lines body))) (length (data_lines body)) rows, st)
         \<and> length rows \<le> 5
         \<and> length rows = length (filter (\<lambda>l. trim l \<noteq> []) (take 5 (data_lines body)))
         \<and> (length (data_lines body) = 50 \<and> (\<forall>l \<in> set (take 5 (data_lines body)). trim l \<noteq> [])
              \<longrightarrow> length rows = 5)"
proof -
  let ?rows = "preview_loop e (header_columns body) 1 (take 5 (data_lines body))"
  have len: "length ?rows = length (filter (\<lambda>l. trim l \<noteq> []) (take 5 (data_lines body)))"
    by (rule length_preview_loop)
  have "length (filter (\<lambda>l. trim l \<noteq> []) (take 5 (data_lines body))) \<le> length (take 5 (data_lines body))"
    by (rule length_filter_le)
  then have le: "length ?rows \<le> 5" using len by simp
  have full: "length ?rows = 5"
    if "length (data_lines body) = 50" "\<forall>l \<in> set (take 5 (data_lines body)). trim l \<noteq> []"
  proof -
    from that(2) have "filter (\<lambda>l. trim l \<noteq> []) (take 5 (data_lines body)) = take 5 (data_lines body)"
      by (simp add: filter_id_conv)
    with len that(1) show ?thesis by simp
  qed
  from csv_preview_ok [OF assms, of e st] len le full show ?thesis by blast
qed

text \<open>
  The claim as stated fails on two inputs with a valid header.  A body that is the header
  alone is rejected: no column list is returned.  And of 50 data lines of which the second
  is blank, preview returns 4 sample rows with \<open>total_rows = 50\<close>.
\<close>

theorem preview_shape_counterexample:
  "''timestamp'' \<in> set (parseCSVLine (hd (body_lines ''timestamp,event_type'')))
   \<and> ''event_type'' \<in> set (parseCSVLine (hd (body_lines ''timestamp,event_type'')))
   \<and> csv_preview sample_env empty_db ''timestamp,event_type''
       = (PreviewError 400 ''CSV must have at least a header and one data row'', empty_db)
   \<and> length (data_lines (unlines (''timestamp,event_type'' # ''1,a'' # '''' # replicate 48 ''1,a''))) = 50
   \<and> total_rows (fst (csv_preview sample_env empty_db
         (unlines (''timestamp,event_type'' # ''1,a'' # '''' # replicate 48 ''1,a'')))) = 50
   \<and> length (preview (fst (csv_preview sample_env empty_db
         (unlines (''timestamp,event_type'' # ''1,a'' # '''' # replicate 48 ''1,a''))))) = 4"
  by code_simp

theorem preview_shape_witness:
  "2 \<le> length (body_lines (unlines (''timestamp,event_type'' # replicate 50 ''1,a'')))
   \<and> ''timestamp'' \<in> set (parseCSVLine (hd (body_lines (unlines (''timestamp,event_type'' # replicate 50 ''1,a'')))))
   \<and> ''event_type'' \<in> set (parseCSVLine (hd (body_lines (unlines (''timestamp,event_type'' # replicate 50 ''1,a'')))))
   \<and> length (data_lines (unlines (''timestamp,event_type'' # replicate 50 ''1,a''))) = 50
   \<and> list_all (\<lambda>l. trim l \<noteq> []) (take 5 (data_lines (unlines (''timestamp,event_type'' # replicate 50 ''1,a''))))
   \<and> (\<exists>rows. csv_preview sample_env empty_db (unlines (''timestamp,event_type'' # replicate 50 ''1,a''))
          = (PreviewOk [''timestamp'', ''event_type''] 50 rows, empty_db)
        \<and> length rows = 5)"
proof -
  let ?B = "unlines (''timestamp,event_type'' # replicate 50 ''1,a'')"
  have h1: "2 \<le> length (body_lines ?B)" by code_simp
  have h2: "''timestamp'' \<in> set (parseCSVLine (hd (body_lines ?B)))" by code_simp
  have h3: "''event_type'' \<in> set (parseCSVLine (hd (body_lines ?B)))" by code_simp
  have n: "length (data_lines ?B) = 50" by code_simp
  have nb: "\<forall>l \<in> set (take 5 (data_lines ?B)). trim l \<noteq> []" by code_simp
  have hdr: "parseCSVLine (hd (body_lines ?B)) = [''timestamp'', ''event_type'']" by code_simp
  from preview_shape [OF h1 h2 h3, of sample_env empty_db] n nb hdr
  have "\<exists>rows. csv_preview sample_env empty_db ?B
          = (PreviewOk [''timestamp'', ''event_type''] 50 rows, empty_db)
        \<and> length rows = 5"
    by auto
  with h1 h2 h3 n nb show ?thesis by (simp only: list_all_iff)
qed

section \<open>Listing by tags\<close>

lemma select_events_where:
  "row \<in> set (select_events uid st q) \<Longrightarrow> row \<in> set (events st) \<and> where_clause uid q row"
proof -
  assume "row \<in> set (select_events uid st q)"
  then have "row \<in> set (sort_key (\<lambda>row. - timestamp row) (filter (where_clause uid q) (events st)))"
    unfolding select_events_def by (blast dest: in_set_takeD in_set_dropD)
  then show ?thesis by simp
qed

lemma where_clause_tags:
  assumes "where_clause uid q row" "q_tags q = Some tgs" "tgs \<noteq> []" "tag \<in> set (tagList tgs)"
  shows "user_id row = uid \<and> column_like (tags row) (tag_pattern tag)"
  using assms by (auto simp: where_clause_def list_all_iff)

text \<open>
  On ordinary tags the filter is the intersection: of three events tagged \<open>health\<close>,
  \<open>health\<close> and \<open>am\<close>, and \<open>am\<close>, a list call asking for \<open>health,am\<close> returns the second
  only.
\<close>

lemma list_tags_intersection_example:
  "map le_tags (projr (list_events sample_env ''u1''
      (snd (json_import sample_env ''u1'' empty_db
         [\<lparr>ie_timestamp = TNum 1700000000, ie_event_type = ''walk'', ie_data = None,
           ie_tags = Some [''health'']\<rparr>,
          \<lparr>ie_timestamp = TNum 1700000001, ie_event_type = ''walk'', ie_data = None,
           ie_tags = Some [''health'', ''am'']\<rparr>,
          \<lparr>ie_timestamp = TNum 1700000002, ie_event_type = ''walk'', ie_data = None,
           ie_tags = Some [''am'']\<rparr>]))
      \<lparr>q_event_type = None, q_start = None, q_end = None, q_tags = Some ''health,am'',
       q_limit = 100, q_offset = 0\<rparr>))
     = [JArr [JStr ''health'', JStr ''am'']]"
  by code_simp

text \<open>
  Claim C4.  Every listed event should hold every requested tag in its tag set.  The
  statement asks, for each requested tag, that the stored text of the tags matches the
  pattern \<open>%"tag"%\<close> under \<open>LIKE\<close>, where \<open>_\<close> and \<open>%\<close> inside the requested tag are
  wildcards: a list call asking for the tag \<open>he_lth\<close> returns an event whose only tag is
  \<open>health\<close>.
\<close>

theorem list_tags_wildcard:
  "list_events sample_env ''u1''
      (snd (json_import sample_env ''u1'' empty_db
         [\<lparr>ie_timestamp = TNum 1700000000, ie_event_type = ''walk'', ie_data = None,
           ie_tags = Some [''health'']\<rparr>]))
      \<lparr>q_event_type = None, q_start = None, q_end = None, q_tags = Some ''he_lth'',
       q_limit = 100, q_offset = 0\<rparr>
     = Inr [\<lparr>le_row =
              \<lparr>ev_id = ''01H0'', user_id = ''u1'', timestamp = 1700000000000,
               event_type = Some ''walk'', data = None,
               tags = Some ([CHR ''['', CHR 0x22] @ ''health'' @ [CHR 0x22, CHR '']'']),
               source = ''json_import'', created_at = 1704067200000\<rparr>,
            le_data = JNull, le_tags = JArr [JStr ''health'']\<rparr>]
   \<and> ''he_lth'' \<notin> set [''health'']"
  by code_simp

end
